theory Spec2Isabelle
  imports Main "HOL-Library.Word" "HOL-Library.Sublist"
begin

section \<open>Symbol table (symbols.py)\<close>

text \<open>
  A \<open>Symbol\<close> stores the name of a variable and the text of its declared type.
  A \<open>SymTable\<close> is one scope: a dictionary from names to symbols and a reference to the
  enclosing scope (\<open>None\<close> for the global scope). The parser only ever mutates the
  innermost table, so the chain is modelled by value.
\<close>

datatype Symbol = Symbol (var: string) (type: string)

datatype SymTable = SymTable (table: "string \<rightharpoonup> Symbol") (previous: "SymTable option")

text \<open>\<open>SymTable(previous)\<close>: every new table starts with an empty dictionary.\<close>

definition SymTable_new :: "SymTable option \<Rightarrow> SymTable" where
  "SymTable_new prev = SymTable Map.empty prev"

text \<open>
  \<open>insert\<close>: returns \<open>False\<close> and leaves the table alone when the identifier is already a
  key of this table; otherwise stores the symbol and returns \<open>True\<close>.
\<close>

definition SymTable_insert :: "SymTable \<Rightarrow> string \<Rightarrow> Symbol \<Rightarrow> bool \<times> SymTable" where
  "SymTable_insert self ident symbol =
     (if ident \<in> dom (table self) then (False, self)
      else (True, SymTable ((table self)(ident \<mapsto> symbol)) (previous self)))"

text \<open>
  \<open>find\<close>: the \<open>while current_scope is not None\<close> loop walks the \<open>previous\<close> links;
  the recursion is structural on the chain.
\<close>

fun SymTable_find :: "SymTable \<Rightarrow> string \<Rightarrow> Symbol option" where
  "SymTable_find (SymTable tbl prev) ident =
     (if ident \<in> dom tbl then tbl ident
      else (case prev of None \<Rightarrow> None | Some p \<Rightarrow> SymTable_find p ident))"

text \<open>The scopes of a chain, innermost first.\<close>

fun scope_chain :: "SymTable \<Rightarrow> (string \<rightharpoonup> Symbol) list" where
  "scope_chain (SymTable tbl prev) =
     tbl # (case prev of None \<Rightarrow> [] | Some p \<Rightarrow> scope_chain p)"

text \<open>
  The lookup as the specification words it: the binding in the first scope of the chain,
  from the current scope outward, that contains the name; absent when none does.
\<close>

definition nearest_binding :: "(string \<rightharpoonup> Symbol) list \<Rightarrow> string \<Rightarrow> Symbol option" where
  "nearest_binding scopes ident =
     (case List.find (\<lambda>m. m ident \<noteq> None) scopes of None \<Rightarrow> None | Some m \<Rightarrow> m ident)"

section \<open>Tokens (modules/lexer.py)\<close>

text \<open>
  A \<open>Tag\<close> has a numeric value and a name. \<open>Tag(c)\<close> for a one-character string takes
  the code point of the character as value; \<open>Tag(v, name)\<close> stores both as given.
  Comparing a tag with a tag compares the values, comparing it with a string compares
  the name.
\<close>

datatype Tag = Tag (tag_value: int) (tag_name: string)

definition Tag_chr :: "char \<Rightarrow> Tag" where
  "Tag_chr c = Tag (of_char c) [c]"

definition Tag_eq :: "Tag \<Rightarrow> Tag \<Rightarrow> bool" where
  "Tag_eq a b = (tag_value a = tag_value b)"

definition Tag_eq_str :: "Tag \<Rightarrow> string \<Rightarrow> bool" where
  "Tag_eq_str a s = (tag_name a = s)"

text \<open>
  The class \<open>Tags\<close> as lexer.py defines it: a namespace with exactly five attributes.
  Reading any other attribute of the class raises \<open>AttributeError\<close>.
\<close>

definition Tags_NUM :: Tag where "Tags_NUM = Tag 256 ''NUM''"
definition Tags_ID :: Tag where "Tags_ID = Tag 257 ''ID''"
definition Tags_TYPE :: Tag where "Tags_TYPE = Tag 258 ''TYPE''"
definition Tags_TRUE :: Tag where "Tags_TRUE = Tag 259 ''TRUE''"
definition Tags_FALSE :: Tag where "Tags_FALSE = Tag 260 ''FALSE''"

definition Tags :: "string \<rightharpoonup> Tag" where
  "Tags = map_of [(''NUM'', Tags_NUM), (''ID'', Tags_ID), (''TYPE'', Tags_TYPE),
                  (''TRUE'', Tags_TRUE), (''FALSE'', Tags_FALSE)]"

text \<open>
  Tokens are objects: the first field of every constructor is the identity of the
  object, handed out by an allocation counter, so that two tokens are the same instance
  exactly when they are equal here. \<open>Token\<close> carries its tag; \<open>Id\<close> and \<open>Type\<close> carry a
  name and \<open>Num\<close> an integer value, with the tags \<open>ID\<close>, \<open>TYPE\<close> and \<open>NUM\<close>.
\<close>

datatype Token = Token nat Tag | Id nat string | Type nat string | Num nat int

fun tag :: "Token \<Rightarrow> Tag" where
  "tag (Token i t) = t"
| "tag (Id i n) = Tags_ID"
| "tag (Type i n) = Tags_TYPE"
| "tag (Num i v) = Tags_NUM"

fun oid :: "Token \<Rightarrow> nat" where
  "oid (Token i t) = i"
| "oid (Id i n) = i"
| "oid (Type i n) = i"
| "oid (Num i v) = i"

text \<open>\<open>Token(s)\<close> for a string: the empty string gives \<open>Tag(0, "")\<close>.\<close>

definition Token_str :: "nat \<Rightarrow> string \<Rightarrow> Token" where
  "Token_str i s = (if s = [] then Token i (Tag 0 []) else Token i (Tag_chr (hd s)))"

text \<open>\<open>str(token)\<close>: the name for \<open>Id\<close> and \<open>Type\<close>, the tag name otherwise.\<close>

fun Token_to_str :: "Token \<Rightarrow> string" where
  "Token_to_str (Token i t) = tag_name t"
| "Token_to_str (Id i n) = n"
| "Token_to_str (Type i n) = n"
| "Token_to_str (Num i v) = tag_name Tags_NUM"

text \<open>\<open>token == s\<close> and \<open>token != s\<close> for a string compare the tag name.\<close>

definition Token_eq_str :: "Token \<Rightarrow> string \<Rightarrow> bool" where
  "Token_eq_str tok s = (tag_name (tag tok) = s)"

section \<open>Character source (istream.py)\<close>

record InputStream =
  source_code :: string
  position :: nat
  eof_reached :: bool

definition InputStream_init :: "string \<Rightarrow> InputStream" where
  "InputStream_init src = \<lparr>source_code = src, position = 0, eof_reached = False\<rparr>"

text \<open>
  \<open>get_char\<close> returns a one-character string, or the empty string at the end, where it
  also sets \<open>eof_reached\<close>. \<open>peek\<close> (offset 0) looks at the next character.
\<close>

definition get_char :: "InputStream \<Rightarrow> string \<times> InputStream" where
  "get_char s =
     (if position s < length (source_code s)
      then ([source_code s ! position s], s\<lparr>position := position s + 1\<rparr>)
      else ([], s\<lparr>eof_reached := True\<rparr>))"

definition stream_peek :: "InputStream \<Rightarrow> string" where
  "stream_peek s =
     (if position s < length (source_code s) then [source_code s ! position s] else [])"

section \<open>Lexer (modules/lexer.py)\<close>

text \<open>
  Characters are modelled on the ASCII range, where \<open>str.isspace\<close>, \<open>str.isdigit\<close> and
  \<open>str.isalpha\<close> are the predicates below; all three are false on the empty string.
\<close>

definition NL :: string where "NL = [CHR 0x0A]"
definition CR :: string where "CR = [CHR 0x0D]"
definition TAB :: string where "TAB = [CHR 0x09]"

definition isspace :: "string \<Rightarrow> bool" where
  "isspace s = (s \<noteq> [] \<and> list_all (\<lambda>c. c \<in> set [CHR '' '', CHR 0x09, CHR 0x0A, CHR 0x0B,
       CHR 0x0C, CHR 0x0D, CHR 0x1C, CHR 0x1D, CHR 0x1E, CHR 0x1F]) s)"

definition isdigit :: "string \<Rightarrow> bool" where
  "isdigit s = (s \<noteq> [] \<and> list_all (\<lambda>c. (48::nat) \<le> of_char c \<and> of_char c \<le> (57::nat)) s)"

definition isalpha :: "string \<Rightarrow> bool" where
  "isalpha s = (s \<noteq> [] \<and> list_all (\<lambda>c. ((97::nat) \<le> of_char c \<and> of_char c \<le> (122::nat))
       \<or> ((65::nat) \<le> of_char c \<and> of_char c \<le> (90::nat))) s)"

text \<open>\<open>int(num_str)\<close> on a string of decimal digits.\<close>

definition int_of_digits :: "string \<Rightarrow> int" where
  "int_of_digits s = foldl (\<lambda>a c. 10 * a + (of_char c - of_char CHR ''0'')) 0 s"

text \<open>
  The state of a lexer. \<open>logged_token\<close> holds the flags \<open>NONE = 0\<close>, \<open>EXPRESSION = 1\<close>,
  \<open>BLOCK = 2\<close> (and \<open>True\<close>, which is 1). \<open>next_oid\<close> is the allocation counter for
  token objects. The logger only writes output and is left out.
\<close>

record Lexer =
  line :: int
  cached_line :: int
  peek :: string
  istream :: InputStream
  id_table :: "string \<rightharpoonup> Token"
  logged_token :: int
  next_oid :: nat

definition LoggedToken_NONE :: int where "LoggedToken_NONE = 0"
definition LoggedToken_EXPRESSION :: int where "LoggedToken_EXPRESSION = 1"
definition LoggedToken_BLOCK :: int where "LoggedToken_BLOCK = 2"

text \<open>
  \<open>_init_id_table\<close> creates the fifteen reserved-word tokens, in this order.
\<close>

definition init_id_table :: "string \<rightharpoonup> Token" where
  "init_id_table = map_of
     [(''true'', Token 0 Tags_TRUE), (''false'', Token 1 Tags_FALSE),
      (''int'', Type 2 ''int''), (''float'', Type 3 ''float''),
      (''double'', Type 4 ''double''), (''bool'', Type 5 ''bool''),
      (''char'', Type 6 ''char''), (''str'', Type 7 ''str''),
      (''i8'', Type 8 ''i8''), (''i16'', Type 9 ''i16''),
      (''u16'', Type 10 ''u16''), (''u32'', Type 11 ''u32''),
      (''i64'', Type 12 ''i64''), (''u64'', Type 13 ''u64''),
      (''void'', Type 14 ''void'')]"

definition Lexer_init :: "InputStream \<Rightarrow> Lexer" where
  "Lexer_init s = \<lparr>line = 1, cached_line = 1, peek = '' '', istream = s,
     id_table = init_id_table, logged_token = LoggedToken_NONE, next_oid = 15\<rparr>"

text \<open>
  \<open>_get_next_char\<close>: reads characters until one is not a tab. \<open>char in "\t"\<close> also holds
  for the empty string that \<open>get_char\<close> returns at the end; the loop then stops because
  \<open>eof_reached\<close> is set. A line feed, or a carriage return in front of one, counts a
  line and is returned as a line feed.
\<close>

function get_next_char :: "Lexer \<Rightarrow> string \<times> Lexer" where
  "get_next_char self =
     (if eof_reached (istream self) then ([], self)
      else if fst (get_char (istream self)) = [] \<or> fst (get_char (istream self)) = TAB
           then get_next_char (self\<lparr>istream := snd (get_char (istream self))\<rparr>)
      else if fst (get_char (istream self)) = NL
              \<or> (fst (get_char (istream self)) = CR
                  \<and> stream_peek (snd (get_char (istream self))) = NL)
           then (NL, self\<lparr>istream := snd (get_char (istream self)), line := line self + 1\<rparr>)
      else (fst (get_char (istream self)),
            self\<lparr>istream := snd (get_char (istream self))\<rparr>))"
  by pat_completeness auto
termination
  by (relation "measure (\<lambda>self. length (source_code (istream self)) - position (istream self)
        + (if eof_reached (istream self) then 0 else 1))")
     (auto simp: get_char_def split: if_splits)

declare get_next_char.simps [simp del]

text \<open>The statement \<open>self._peek = self._get_next_char()\<close>.\<close>

definition advance :: "Lexer \<Rightarrow> Lexer" where
  "advance self = (snd (get_next_char self))\<lparr>peek := fst (get_next_char self)\<rparr>"

text \<open>
  \<open>_log_line_interrupt\<close>: after a logged expression it reads the next character and
  returns a new \<open>;\<close> token; otherwise it moves the cached line. The flags are reset.
\<close>

definition log_line_interrupt :: "Lexer \<Rightarrow> Token option \<times> Lexer" where
  "log_line_interrupt self =
     (if and (logged_token self) LoggedToken_EXPRESSION \<noteq> 0
      then (Some (Token_str (next_oid self) '';''),
            (advance self)\<lparr>next_oid := next_oid self + 1, logged_token := LoggedToken_NONE\<rparr>)
      else if and (logged_token self) LoggedToken_BLOCK \<noteq> 0
      then (None, self\<lparr>cached_line := line self + 1, logged_token := LoggedToken_NONE\<rparr>)
      else (None, self\<lparr>cached_line := line self + 1, logged_token := LoggedToken_NONE\<rparr>))"

text \<open>
  The loops of the lexer take an iteration budget and return \<open>None\<close> when it runs out;
  a loop of the source that never ends has the value \<open>None\<close> for every budget.
\<close>

text \<open>
  \<open>_nesting_comment(symbols)\<close>: the inner loop runs until \<open>_peek\<close> and the next character
  of the stream are the closing pair \<open>symbols[2], symbols[3]\<close>; on its way it skips line
  feeds and counts an opening pair \<open>symbols[0], symbols[1]\<close> as one more level. The outer
  loop leaves one level at each closing pair. The result tells whether a line feed was
  seen.
\<close>

fun nesting_inner :: "nat \<Rightarrow> string \<Rightarrow> bool \<times> int \<times> Lexer \<Rightarrow> (bool \<times> int \<times> Lexer) option" where
  "nesting_inner 0 symbols x = None"
| "nesting_inner (Suc n) symbols (had_nl, nesting, self) =
     (if peek self \<noteq> [symbols ! 2] \<or> stream_peek (istream self) \<noteq> [symbols ! 3]
      then nesting_inner n symbols
             (if peek (advance self) = NL
              then (if peek (advance (advance self)) = [symbols ! 0]
                       \<and> stream_peek (istream (advance (advance self))) = [symbols ! 1]
                    then (True, nesting + 1, advance (advance (advance (advance self))))
                    else (True, nesting, advance (advance self)))
              else (if peek (advance self) = [symbols ! 0]
                       \<and> stream_peek (istream (advance self)) = [symbols ! 1]
                    then (had_nl, nesting + 1, advance (advance (advance self)))
                    else (had_nl, nesting, advance self)))
      else Some (had_nl, nesting, self))"

fun nesting_outer :: "nat \<Rightarrow> string \<Rightarrow> bool \<times> int \<times> Lexer \<Rightarrow> (bool \<times> Lexer) option" where
  "nesting_outer 0 symbols x = None"
| "nesting_outer (Suc n) symbols (had_nl, nesting, self) =
     (if nesting > 0
      then (case nesting_inner n symbols (had_nl, nesting, self) of
              None \<Rightarrow> None
            | Some (had_nl1, nesting1, s1) \<Rightarrow>
                nesting_outer n symbols (had_nl1, nesting1 - 1, advance (advance s1)))
      else Some (had_nl, self))"

definition nesting_comment :: "nat \<Rightarrow> string \<Rightarrow> Lexer \<Rightarrow> (bool \<times> Lexer) option" where
  "nesting_comment n symbols self = nesting_outer n symbols (False, 1, self)"

text \<open>Region 1 of \<open>scan\<close>: white space; a line feed may produce a \<open>;\<close> token.\<close>

fun skip_space :: "nat \<Rightarrow> Lexer \<Rightarrow> (Token option \<times> Lexer) option" where
  "skip_space 0 self = None"
| "skip_space (Suc n) self =
     (if isspace (peek self)
      then (if peek self = NL
            then (case log_line_interrupt self of
                    (Some token, s1) \<Rightarrow> Some (Some token, s1)
                  | (None, s1) \<Rightarrow> skip_space n (advance s1))
            else skip_space n (advance self))
      else Some (None, self))"

text \<open>The loops \<open>while self._peek.isdigit()\<close> and \<open>while self._peek.isalpha()\<close>.\<close>

fun collect_digits :: "nat \<Rightarrow> string \<times> Lexer \<Rightarrow> (string \<times> Lexer) option" where
  "collect_digits 0 x = None"
| "collect_digits (Suc n) (num_str, self) =
     (if isdigit (peek self) then collect_digits n (num_str @ peek self, advance self)
      else Some (num_str, self))"

fun collect_alpha :: "nat \<Rightarrow> string \<times> Lexer \<Rightarrow> (string \<times> Lexer) option" where
  "collect_alpha 0 x = None"
| "collect_alpha (Suc n) (id_str, self) =
     (if isalpha (peek self) then collect_alpha n (id_str @ peek self, advance self)
      else Some (id_str, self))"

text \<open>
  Region 2: numbers. A digit run not followed by a point is returned as a \<open>Num\<close>;
  with a point, the second digit run is read and no token is returned: the scan falls
  through to the next region (result \<open>None\<close> for the token).
\<close>

definition scan_number :: "nat \<Rightarrow> Lexer \<Rightarrow> (Token option \<times> Lexer) option" where
  "scan_number n self =
     (if isdigit (peek self)
      then (case collect_digits n ([], self) of
              None \<Rightarrow> None
            | Some (num_str, s1) \<Rightarrow>
                if peek s1 \<noteq> ''.''
                then Some (Some (Num (next_oid s1) (int_of_digits num_str)),
                           s1\<lparr>logged_token := 1, next_oid := next_oid s1 + 1\<rparr>)
                else (case collect_digits n (num_str @ peek s1, advance s1) of
                        None \<Rightarrow> None
                      | Some (num_str2, s2) \<Rightarrow> Some (None, s2)))
      else Some (None, self))"

text \<open>
  Region 3: identifiers and reserved words. A spelling found in the identifier table
  returns the token stored there; a new spelling creates an \<open>Id\<close>, stores it and
  returns it.
\<close>

definition scan_ident :: "nat \<Rightarrow> Lexer \<Rightarrow> (Token option \<times> Lexer) option" where
  "scan_ident n self =
     (if isalpha (peek self)
      then (case collect_alpha n ([], self) of
              None \<Rightarrow> None
            | Some (id_str, s1) \<Rightarrow>
                (case id_table s1 id_str of
                   Some token_found \<Rightarrow> Some (Some token_found, s1\<lparr>logged_token := 1\<rparr>)
                 | None \<Rightarrow>
                     Some (Some (Id (next_oid s1) id_str),
                           s1\<lparr>id_table := (id_table s1)(id_str \<mapsto> Id (next_oid s1) id_str),
                              logged_token := 1, next_oid := next_oid s1 + 1\<rparr>)))
      else Some (None, self))"

text \<open>
  Region 4: comments. Each branch either returns a token, restarts the scan loop
  (\<open>continue\<close>) or falls through to the code below it.
\<close>

datatype control = Return Token | Continue | Fall

fun skip_line :: "nat \<Rightarrow> Lexer \<Rightarrow> Lexer option" where
  "skip_line 0 self = None"
| "skip_line (Suc n) self =
     (if peek self \<noteq> NL \<and> peek self \<noteq> [] then skip_line n (advance self) else Some self)"

definition line_comment :: "nat \<Rightarrow> Lexer \<Rightarrow> (control \<times> Lexer) option" where
  "line_comment n self =
     (case skip_line n self of
        None \<Rightarrow> None
      | Some s1 \<Rightarrow>
          if peek s1 = NL
          then (case log_line_interrupt s1 of
                  (Some token, s2) \<Rightarrow> Some (Return token, s2)
                | (None, s2) \<Rightarrow> Some (Continue, advance s2))
          else Some (Fall, s1))"

definition block_comment :: "nat \<Rightarrow> string \<Rightarrow> Lexer \<Rightarrow> (control \<times> Lexer) option" where
  "block_comment n symbols self =
     (case nesting_comment n symbols self of
        None \<Rightarrow> None
      | Some (had_nl, s1) \<Rightarrow>
          if had_nl
          then (if logged_token s1 \<noteq> 0
                then (case log_line_interrupt s1 of
                        (Some token, s2) \<Rightarrow> Some (Return token, s2)
                      | (None, s2) \<Rightarrow> Some (Continue, advance s2))
                else Some (Continue, advance s1))
          else Some (Continue, s1))"

definition scan_hash :: "nat \<Rightarrow> Lexer \<Rightarrow> (control \<times> Lexer) option" where
  "scan_hash n self =
     (if peek self = ''#''
      then (if stream_peek (istream self) = ''<'' then block_comment n ''#<>#'' self
            else line_comment n self)
      else Some (Fall, self))"

definition scan_slash :: "nat \<Rightarrow> Lexer \<Rightarrow> (control \<times> Lexer) option" where
  "scan_slash n self =
     (if peek self = ''/''
      then (if stream_peek (istream self) = ''/'' then line_comment n self
            else if stream_peek (istream self) = ''*'' then block_comment n ''/**/'' self
            else Some (Fall, self))
      else Some (Fall, self))"

text \<open>
  Region 5: operators. \<open>Token(self._peek)\<close> is created first; the end marker is returned
  as it is, a blank restarts the loop, any other character is returned as a token after
  the flags are updated and the next character is read. \<open>None\<close> stands for \<open>continue\<close>.
\<close>

definition scan_operator :: "Lexer \<Rightarrow> Token option \<times> Lexer" where
  "scan_operator self =
     (if peek self = []
      then (Some (Token_str (next_oid self) (peek self)), self\<lparr>next_oid := next_oid self + 1\<rparr>)
      else if peek self \<in> set ['' '', CR, TAB]
      then (None, advance (self\<lparr>next_oid := next_oid self + 1\<rparr>))
      else (Some (Token_str (next_oid self) (peek self)),
            advance (self\<lparr>next_oid := next_oid self + 1,
               logged_token :=
                 (if and (logged_token self) LoggedToken_EXPRESSION \<noteq> 0 then logged_token self
                  else or (logged_token self)
                         (if peek self \<in> set [''{'', ''}'', '','', '';''] then LoggedToken_BLOCK
                          else LoggedToken_EXPRESSION))\<rparr>)))"

text \<open>\<open>scan\<close>: the \<open>while True\<close> loop over the regions.\<close>

fun scan :: "nat \<Rightarrow> Lexer \<Rightarrow> (Token \<times> Lexer) option" where
  "scan 0 self = None"
| "scan (Suc n) self =
     (if peek self = [CHR 0x5C] \<and> stream_peek (istream self) = NL
      then scan n (advance (advance self))
      else (case skip_space n self of
              None \<Rightarrow> None
            | Some (Some token, s1) \<Rightarrow> Some (token, s1)
            | Some (None, s1) \<Rightarrow>
        (case scan_number n s1 of
           None \<Rightarrow> None
         | Some (Some token, s2) \<Rightarrow> Some (token, s2)
         | Some (None, s2) \<Rightarrow>
        (case scan_ident n s2 of
           None \<Rightarrow> None
         | Some (Some token, s3) \<Rightarrow> Some (token, s3)
         | Some (None, s3) \<Rightarrow>
        (case scan_hash n s3 of
           None \<Rightarrow> None
         | Some (Return token, s4) \<Rightarrow> Some (token, s4)
         | Some (Continue, s4) \<Rightarrow> scan n s4
         | Some (Fall, s4) \<Rightarrow>
        (case scan_slash n s4 of
           None \<Rightarrow> None
         | Some (Return token, s5) \<Rightarrow> Some (token, s5)
         | Some (Continue, s5) \<Rightarrow> scan n s5
         | Some (Fall, s5) \<Rightarrow>
        (case scan_operator s5 of
           (Some token, s6) \<Rightarrow> Some (token, s6)
         | (None, s6) \<Rightarrow> scan n s6)))))))"

section \<open>Abstract syntax (modules/ast.py)\<close>

text \<open>
  The nodes the parser builds. The value of a \<open>Literal\<close> is always an integer in the
  functions modelled here.
\<close>

datatype ASTNode =
    Literal int
  | Identifier string
  | BinOp ASTNode string ASTNode
  | Assignment string ASTNode
  | VarDecl string string ASTNode
  | PrintStmt ASTNode
  | Block "ASTNode list"
  | Program "ASTNode list"

section \<open>Parser (modules/parser.py)\<close>

text \<open>
  Two exceptions can leave the parser: \<open>ParseError\<close>, with the arguments it was raised
  with (none for a bare \<open>ParseError()\<close>, otherwise the message), and the
  \<open>AttributeError\<close> of Python for an attribute that does not exist, with its name.
\<close>

datatype error = ParseError "string list" | AttributeError string

text \<open>\<open>str(n)\<close> for an integer, as the f-strings of the messages format the line.\<close>

fun str_nat :: "nat \<Rightarrow> string" where
  "str_nat n = (if n < 10 then [char_of (48 + n)]
                else str_nat (n div 10) @ [char_of (48 + n mod 10)])"

definition str_int :: "int \<Rightarrow> string" where
  "str_int i = (if i < 0 then ''-'' @ str_nat (nat (- i)) else str_nat (nat i))"

text \<open>
  The state of a parser: the lexer, the lookahead token and the current scope. (The
  identifier queue and the accumulator are not used by the functions modelled here.)
\<close>

record Parser =
  lexer :: Lexer
  lookahead :: Token
  sym_table :: SymTable

text \<open>
  \<open>Parser(lexer)\<close>: the lookahead starts as \<open>Token("")\<close> and the scope as a new global
  table.
\<close>

definition Parser_init :: "Lexer \<Rightarrow> Parser" where
  "Parser_init lx = \<lparr>lexer = lx\<lparr>next_oid := next_oid lx + 1\<rparr>,
     lookahead = Token_str (next_oid lx) [], sym_table = SymTable_new None\<rparr>"

text \<open>
  A parser method returns a value or raises, and leaves a parser state behind in both
  cases; \<open>None\<close> means that the iteration budget ran out. \<open>pbind\<close> runs the second
  computation on the value and state of the first unless the first raised.
\<close>

type_synonym 'a result = "((error + 'a) \<times> Parser) option"

definition pbind :: "'a result \<Rightarrow> ('a \<Rightarrow> Parser \<Rightarrow> 'b result) \<Rightarrow> 'b result" where
  "pbind m f = (case m of None \<Rightarrow> None
                | Some (Inl e, s) \<Rightarrow> Some (Inl e, s)
                | Some (Inr a, s) \<Rightarrow> f a s)"

text \<open>
  The parser reads the attributes of the class \<open>Tags\<close> when it runs. The namespace of the
  class is the parameter \<open>T\<close> of every method below (for this program it is \<open>Tags\<close>);
  reading an attribute that the namespace lacks raises \<open>AttributeError\<close>.
\<close>

definition with_attr :: "(string \<rightharpoonup> Tag) \<Rightarrow> string \<Rightarrow> Parser \<Rightarrow> (Tag \<Rightarrow> 'a result) \<Rightarrow> 'a result" where
  "with_attr T name self f =
     (case T name of None \<Rightarrow> Some (Inl (AttributeError name), self) | Some t \<Rightarrow> f t)"

text \<open>
  \<open>match(t)\<close>: when the tag equals the tag of the lookahead the next token is scanned,
  otherwise a bare \<open>ParseError()\<close> is raised.
\<close>

definition match :: "nat \<Rightarrow> Tag \<Rightarrow> Parser \<Rightarrow> unit result" where
  "match n t self =
     (if Tag_eq t (tag (lookahead self))
      then (case scan n (lexer self) of
              None \<Rightarrow> None
            | Some (tok, lx) \<Rightarrow> Some (Inr (), self\<lparr>lexer := lx, lookahead := tok\<rparr>))
      else Some (Inl (ParseError []), self))"

text \<open>\<open>factor\<close>: the optional sign first, then a number, a string literal or a name.\<close>

definition factor_sign :: "nat \<Rightarrow> Parser \<Rightarrow> int result" where
  "factor_sign n self =
     (if Token_eq_str (lookahead self) ''+''
      then pbind (match n (Tag_chr CHR ''+'') self) (\<lambda>u s. Some (Inr 1, s))
      else if Token_eq_str (lookahead self) ''-''
      then pbind (match n (Tag_chr CHR ''-'') self) (\<lambda>u s. Some (Inr (- 1), s))
      else Some (Inr 1, self))"

text \<open>\<open>self._lookahead.value\<close>: only a \<open>Num\<close> has the attribute.\<close>

definition token_value :: "Parser \<Rightarrow> (int \<Rightarrow> 'a result) \<Rightarrow> 'a result" where
  "token_value self f =
     (case lookahead self of Num i v \<Rightarrow> f v
      | Token i t \<Rightarrow> Some (Inl (AttributeError ''value''), self)
      | Id i x \<Rightarrow> Some (Inl (AttributeError ''value''), self)
      | Type i x \<Rightarrow> Some (Inl (AttributeError ''value''), self))"

definition factor_error :: "Parser \<Rightarrow> error" where
  "factor_error self = ParseError [''Erro na linha '' @ str_int (cached_line (lexer self))
      @ '': Esperado um valor, vari'' @ [CHR 0xE1] @ ''vel ou string.'']"

definition factor :: "nat \<Rightarrow> (string \<rightharpoonup> Tag) \<Rightarrow> Parser \<Rightarrow> ASTNode result" where
  "factor n T self =
     pbind (factor_sign n self) (\<lambda>modifier s.
       with_attr T ''NUM'' s (\<lambda>t_num.
         if Tag_eq (tag (lookahead s)) t_num
         then token_value s (\<lambda>v.
                pbind (match n t_num s) (\<lambda>u s1. Some (Inr (Literal (v * modifier)), s1)))
         else with_attr T ''STR_LIT'' s (\<lambda>t_str.
           if Tag_eq (tag (lookahead s)) t_str
           then token_value s (\<lambda>v.
                  pbind (match n t_str s) (\<lambda>u s1. Some (Inr (Literal v), s1)))
           else with_attr T ''ID'' s (\<lambda>t_id.
             if Tag_eq (tag (lookahead s)) t_id
             then pbind (match n t_id s)
                    (\<lambda>u s1. Some (Inr (Identifier (Token_to_str (lookahead s))), s1))
             else Some (Inl (factor_error s), s)))))"

text \<open>
  \<open>opers\<close>: a first factor, then the loop that, for every \<open>+\<close> or \<open>-\<close>, reads one more
  factor and makes the tree built so far the left child of a new \<open>BinOp\<close>.
\<close>

fun opers_loop :: "nat \<Rightarrow> (string \<rightharpoonup> Tag) \<Rightarrow> ASTNode \<Rightarrow> Parser \<Rightarrow> ASTNode result" where
  "opers_loop 0 T left_node self = None"
| "opers_loop (Suc n) T left_node self =
     (if Token_eq_str (lookahead self) ''+''
      then pbind (match n (Tag_chr CHR ''+'') self) (\<lambda>u s1.
             pbind (factor n T s1) (\<lambda>right_node s2.
               opers_loop n T (BinOp left_node (tag_name (tag (lookahead self))) right_node) s2))
      else if Token_eq_str (lookahead self) ''-''
      then pbind (match n (Tag_chr CHR ''-'') self) (\<lambda>u s1.
             pbind (factor n T s1) (\<lambda>right_node s2.
               opers_loop n T (BinOp left_node (tag_name (tag (lookahead self))) right_node) s2))
      else Some (Inr left_node, self))"

definition opers :: "nat \<Rightarrow> (string \<rightharpoonup> Tag) \<Rightarrow> Parser \<Rightarrow> ASTNode result" where
  "opers n T self = pbind (factor n T self) (\<lambda>left_node s. opers_loop n T left_node s)"

text \<open>\<open>var_decl\<close>, \<open>assignment\<close> and \<open>print_stmt\<close>.\<close>

definition duplicate_error :: "string \<Rightarrow> error" where
  "duplicate_error name = ParseError [''Erro: vari'' @ [CHR 0xE1] @ ''vel '' @ [CHR 0x27] @ name
      @ [CHR 0x27] @ '' j'' @ [CHR 0xE1] @ '' declarada.'']"

definition var_decl :: "nat \<Rightarrow> (string \<rightharpoonup> Tag) \<Rightarrow> Parser \<Rightarrow> ASTNode result" where
  "var_decl n T self =
     with_attr T ''VAR'' self (\<lambda>t_var.
     pbind (match n t_var self) (\<lambda>u s1.
     with_attr T ''ID'' s1 (\<lambda>t_id.
     pbind (match n t_id s1) (\<lambda>u s2.
     pbind (match n (Tag_chr CHR '':'') s2) (\<lambda>u s3.
     with_attr T ''TYPE'' s3 (\<lambda>t_type.
     pbind (match n t_type s3) (\<lambda>u s4.
     pbind (match n (Tag_chr CHR ''='') s4) (\<lambda>u s5.
     pbind (opers n T s5) (\<lambda>expr_node s6.
     pbind (match n (Tag_chr CHR '';'') s6) (\<lambda>u s7.
       if \<not> fst (SymTable_insert (sym_table s7) (Token_to_str (lookahead s1))
                   (Symbol (Token_to_str (lookahead s1)) (Token_to_str (lookahead s3))))
       then Some (Inl (duplicate_error (Token_to_str (lookahead s1))), s7)
       else Some (Inr (VarDecl (Token_to_str (lookahead s1)) (Token_to_str (lookahead s3))
                         expr_node),
                  s7\<lparr>sym_table :=
                       snd (SymTable_insert (sym_table s7) (Token_to_str (lookahead s1))
                             (Symbol (Token_to_str (lookahead s1))
                                (Token_to_str (lookahead s3))))\<rparr>)))))))))))"

definition assignment :: "nat \<Rightarrow> (string \<rightharpoonup> Tag) \<Rightarrow> Parser \<Rightarrow> ASTNode result" where
  "assignment n T self =
     with_attr T ''SET'' self (\<lambda>t_set.
     pbind (match n t_set self) (\<lambda>u s1.
     with_attr T ''ID'' s1 (\<lambda>t_id.
     pbind (match n t_id s1) (\<lambda>u s2.
     pbind (match n (Tag_chr CHR ''='') s2) (\<lambda>u s3.
     pbind (opers n T s3) (\<lambda>expr_node s4.
     pbind (match n (Tag_chr CHR '';'') s4) (\<lambda>u s5.
       Some (Inr (Assignment (Token_to_str (lookahead s1)) expr_node), s5))))))))"

definition print_stmt :: "nat \<Rightarrow> (string \<rightharpoonup> Tag) \<Rightarrow> Parser \<Rightarrow> ASTNode result" where
  "print_stmt n T self =
     with_attr T ''PRINT'' self (\<lambda>t_print.
     pbind (match n t_print self) (\<lambda>u s1.
     pbind (opers n T s1) (\<lambda>expr_node s2.
     pbind (match n (Tag_chr CHR '';'') s2) (\<lambda>u s3.
       Some (Inr (PrintStmt expr_node), s3)))))"

text \<open>
  \<open>stmts\<close> and \<open>block\<close>. \<open>block\<close> saves the current table, enters a new table whose
  \<open>previous\<close> is the saved one, parses the statements, checks and matches the closing
  brace and only then puts the saved table back.
\<close>

definition block_error :: "Parser \<Rightarrow> error" where
  "block_error self = ParseError [''Erro na linha '' @ str_int (cached_line (lexer self))
      @ '':era esperado '' @ [CHR 0x27] @ ''}'' @ [CHR 0x27] @ '' no final do bloco.'']"

fun stmts :: "nat \<Rightarrow> (string \<rightharpoonup> Tag) \<Rightarrow> ASTNode list \<Rightarrow> Parser \<Rightarrow> ASTNode list result"
  and block :: "nat \<Rightarrow> (string \<rightharpoonup> Tag) \<Rightarrow> Parser \<Rightarrow> ASTNode result" where
  "stmts 0 T statements_list self = None"
| "stmts (Suc n) T statements_list self =
     (if Token_eq_str (lookahead self) '';''
      then pbind (match n (Tag_chr CHR '';'') self) (\<lambda>u s. stmts n T statements_list s)
      else if Tag_eq_str (tag (lookahead self)) ''{''
      then pbind (block n T self) (\<lambda>node s. stmts n T (statements_list @ [node]) s)
      else with_attr T ''VAR'' self (\<lambda>t_var.
        if Tag_eq (tag (lookahead self)) t_var
        then pbind (var_decl n T self) (\<lambda>node s. stmts n T (statements_list @ [node]) s)
        else with_attr T ''SET'' self (\<lambda>t_set.
          if Tag_eq (tag (lookahead self)) t_set
          then pbind (assignment n T self) (\<lambda>node s. stmts n T (statements_list @ [node]) s)
          else with_attr T ''PRINT'' self (\<lambda>t_print.
            if Tag_eq (tag (lookahead self)) t_print
            then pbind (print_stmt n T self)
                   (\<lambda>node s. stmts n T (statements_list @ [node]) s)
            else Some (Inr statements_list, self)))))"
| "block 0 T self = None"
| "block (Suc n) T self =
     pbind (match n (Tag_chr CHR ''{'') self) (\<lambda>u s1.
     pbind (stmts n T [] (s1\<lparr>sym_table := SymTable_new (Some (sym_table s1))\<rparr>))
       (\<lambda>comando_dos_blocos s2.
          if \<not> Token_eq_str (lookahead s2) ''}'' then Some (Inl (block_error s2), s2)
          else pbind (match n (Tag_chr CHR ''}'') s2) (\<lambda>u s3.
                 Some (Inr (Block comando_dos_blocos), s3\<lparr>sym_table := sym_table s1\<rparr>))))"

text \<open>\<open>program\<close> and \<open>start\<close>.\<close>

definition program :: "nat \<Rightarrow> (string \<rightharpoonup> Tag) \<Rightarrow> Parser \<Rightarrow> ASTNode result" where
  "program n T self =
     pbind (stmts n T [] self) (\<lambda>lista_de_comandos s. Some (Inr (Program lista_de_comandos), s))"

definition trailing_error :: error where
  "trailing_error = ParseError [''Erro: C'' @ [CHR 0xF3] @ ''digo extra encontrado ap''
      @ [CHR 0xF3] @ ''s o fim do escopo principal.'']"

text \<open>The statement \<open>self._lookahead = self._lexer.scan()\<close>.\<close>

definition read_token :: "nat \<Rightarrow> Parser \<Rightarrow> Parser option" where
  "read_token n self =
     (case scan n (lexer self) of
        None \<Rightarrow> None
      | Some (tok, lx) \<Rightarrow> Some (self\<lparr>lexer := lx, lookahead := tok\<rparr>))"

definition start :: "nat \<Rightarrow> (string \<rightharpoonup> Tag) \<Rightarrow> Parser \<Rightarrow> ASTNode result" where
  "start n T self =
     (case read_token n self of
        None \<Rightarrow> None
      | Some s0 \<Rightarrow>
          pbind (program n T s0) (\<lambda>ast_root s.
            if \<not> Token_eq_str (lookahead s) [] then Some (Inl trailing_error, s)
            else Some (Inr ast_root, s)))"

text \<open>The whole front end on a source text, with the class \<open>Tags\<close> of lexer.py.\<close>

definition Parser_on :: "string \<Rightarrow> Parser" where
  "Parser_on src = Parser_init (Lexer_init (InputStream_init src))"

definition parse_source :: "nat \<Rightarrow> string \<Rightarrow> ASTNode result" where
  "parse_source n src = start n Tags (Parser_on src)"

text \<open>
  A parser on a source text whose lookahead is the first token, the state in which
  \<open>start\<close> calls \<open>program\<close>.
\<close>

definition Parser_at :: "string \<Rightarrow> Parser" where
  "Parser_at src = the (read_token 100 (Parser_on src))"

text \<open>\<open>scan\<close> called several times in a row: the tokens in order and the final state.\<close>

fun scan_repeat :: "nat \<Rightarrow> nat \<Rightarrow> Lexer \<Rightarrow> (Token list \<times> Lexer) option" where
  "scan_repeat 0 n self = Some ([], self)"
| "scan_repeat (Suc k) n self =
     (case scan n self of
        None \<Rightarrow> None
      | Some (tok, s1) \<Rightarrow>
          (case scan_repeat k n s1 of
             None \<Rightarrow> None
           | Some (toks, s2) \<Rightarrow> Some (tok # toks, s2)))"

section \<open>Notions used in the statements\<close>

text \<open>The number of scopes of a chain: 1 for the global scope alone.\<close>

definition scope_depth :: "SymTable \<Rightarrow> nat" where
  "scope_depth t = length (scope_chain t)"

text \<open>The scopes that enclose a scope, nearest first.\<close>

fun enclosing :: "SymTable \<Rightarrow> SymTable list" where
  "enclosing (SymTable tbl prev) = (case prev of None \<Rightarrow> [] | Some p \<Rightarrow> p # enclosing p)"

text \<open>
  The operands \<open>factor\<close> returns, and the trees that the loop of \<open>opers\<close> can reach
  from a tree \<open>left_node\<close>: \<open>left_node\<close> itself, or a \<open>BinOp\<close> with operator \<open>+\<close> or \<open>-\<close>
  whose right child is an operand and whose left child is reached from \<open>left_node\<close>.
\<close>

fun is_factor :: "ASTNode \<Rightarrow> bool" where
  "is_factor (Literal v) = True"
| "is_factor (Identifier x) = True"
| "is_factor t = False"

fun grows_from :: "ASTNode \<Rightarrow> ASTNode \<Rightarrow> bool" where
  "grows_from left_node (BinOp l op r) =
     (BinOp l op r = left_node
      \<or> ((op = ''+'' \<or> op = ''-'') \<and> is_factor r \<and> grows_from left_node l))"
| "grows_from left_node t = (t = left_node)"

text \<open>
  A namespace that has, besides the attributes of \<open>Tags\<close>, the four attributes the parser
  reads and lexer.py does not define. It is not part of the program; it is used only to
  show what the parser would do behind the failing attribute reads.
\<close>

definition Tags_completed :: "string \<rightharpoonup> Tag" where
  "Tags_completed = Tags(''VAR'' \<mapsto> Tag 261 ''VAR'', ''SET'' \<mapsto> Tag 262 ''SET'',
     ''PRINT'' \<mapsto> Tag 263 ''PRINT'', ''STR_LIT'' \<mapsto> Tag 264 ''STR_LIT'')"

text \<open>
  How the scope of the parser after \<open>stmts\<close> and after \<open>block\<close> relates to the scope
  before: \<open>stmts\<close> leaves a scope with at least the enclosing scopes it started with,
  and with the same \<open>previous\<close> link when it returns; \<open>block\<close> leaves the entry scope
  when it returns or fails at the opening brace, and a scope nested in the entry scope
  when it raises later. \<open>stmts_scope n\<close> and \<open>block_scope n\<close> say that this holds for
  every call with budget \<open>n\<close>.
\<close>

definition scope_after_stmts :: "Parser \<Rightarrow> error + ASTNode list \<Rightarrow> Parser \<Rightarrow> bool" where
  "scope_after_stmts self r s' =
     (suffix (enclosing (sym_table self)) (enclosing (sym_table s'))
      \<and> ((\<exists>v. r = Inr v) \<longrightarrow> previous (sym_table s') = previous (sym_table self)))"

definition scope_after_block :: "Parser \<Rightarrow> error + ASTNode \<Rightarrow> Parser \<Rightarrow> bool" where
  "scope_after_block self r s' =
     (case r of Inr b \<Rightarrow> sym_table s' = sym_table self
      | Inl e \<Rightarrow> if Tag_eq (Tag_chr CHR ''{'') (tag (lookahead self))
                 then suffix (sym_table self # enclosing (sym_table self))
                        (enclosing (sym_table s'))
                 else sym_table s' = sym_table self)"

definition stmts_scope :: "nat \<Rightarrow> bool" where
  "stmts_scope n = (\<forall>T acc self r s'. stmts n T acc self = Some (r, s') \<longrightarrow>
      scope_after_stmts self r s')"

definition block_scope :: "nat \<Rightarrow> bool" where
  "block_scope n = (\<forall>T self r s'. block n T self = Some (r, s') \<longrightarrow>
      scope_after_block self r s')"


fun is_plain :: "Token \<Rightarrow> bool" where
  "is_plain (Token i t) = (tag_value t < 256)"
| "is_plain (Num i v) = True"
| "is_plain (Id i x) = False"
| "is_plain (Type i x) = False"

definition table_step :: "Lexer \<Rightarrow> Lexer \<Rightarrow> bool" where
  "table_step a b = (id_table b = id_table a
     \<or> (\<exists>w i. id_table a w = None \<and> id_table b = (id_table a)(w \<mapsto> Id i w)))"


definition from_table :: "Lexer \<Rightarrow> Lexer \<Rightarrow> Token \<Rightarrow> bool" where
  "from_table a b tok = (\<exists>w. id_table b w = Some tok
     \<and> (id_table a w = Some tok \<or> (id_table a w = None \<and> (\<exists>i. tok = Id i w))))"







definition rest :: "Lexer \<Rightarrow> string" where
  "rest self = drop (position (istream self)) (source_code (istream self))"

definition at :: "Lexer \<Rightarrow> char \<Rightarrow> string \<Rightarrow> bool" where
  "at self x xs = (peek self = [x] \<and> rest self = xs \<and> \<not> eof_reached (istream self))"





text \<open>
  \<open>consumed a b\<close> is the text read from the stream between the states \<open>a\<close> and \<open>b\<close>;
  \<open>tracks a b\<close>: \<open>b\<close> is further on in the same source, and its line counter is the one
  of \<open>a\<close> plus the number of line feeds in the text read in between.
\<close>

definition consumed :: "Lexer \<Rightarrow> Lexer \<Rightarrow> string" where
  "consumed a b = take (position (istream b) - position (istream a)) (rest a)"

definition tracks :: "Lexer \<Rightarrow> Lexer \<Rightarrow> bool" where
  "tracks a b = (source_code (istream b) = source_code (istream a)
     \<and> position (istream a) \<le> position (istream b)
     \<and> line b = line a + int (count_list (consumed a b) (CHR 0x0A)))"

section \<open>Properties of the symbol table\<close>

lemma SymTable_find_chain:
  "SymTable_find t ident = nearest_binding (scope_chain t) ident"
proof (induction t ident rule: SymTable_find.induct)
  case (1 tbl prev ident)
  show ?case
  proof (cases "ident \<in> dom tbl")
    case True
    then show ?thesis by (auto simp: nearest_binding_def)
  next
    case False
    then have none: "tbl ident = None" by (simp add: domIff)
    show ?thesis
    proof (cases prev)
      case None
      with none show ?thesis by (simp add: nearest_binding_def domIff)
    next
      case (Some p)
      with 1 False none show ?thesis by (simp add: nearest_binding_def domIff)
    qed
  qed
qed

text \<open>
  C6. For every scope chain and every name, \<open>SymTable.find\<close> returns the symbol bound in
  the nearest scope that contains the name, searching the current scope first and then
  each enclosing scope outward; it returns \<open>None\<close> exactly when no scope of the chain
  contains the name; and the result is never taken from a scope that lies behind an inner
  scope binding the same name.
\<close>

theorem SymTable_find_nearest:
  "SymTable_find t ident = nearest_binding (scope_chain t) ident
   \<and> ((SymTable_find t ident = None) = (list_all (\<lambda>m. m ident = None) (scope_chain t)))
   \<and> (SymTable_find (SymTable (tbl(ident \<mapsto> s)) (Some t)) ident = Some s)"
proof -
  have a: "SymTable_find t ident = nearest_binding (scope_chain t) ident"
    by (rule SymTable_find_chain)
  have b: "(nearest_binding scopes ident = None) = list_all (\<lambda>m. m ident = None) scopes"
    for scopes
    by (induction scopes) (auto simp: nearest_binding_def)
  show ?thesis using a b by simp
qed

section \<open>Scanning at the end of the input\<close>

lemma scan_at_end:
  "peek self = [] \<Longrightarrow> scan (Suc (Suc n)) self
     = Some (Token (next_oid self) (Tag 0 []), self\<lparr>next_oid := next_oid self + 1\<rparr>)"
  by (simp add: scan_number_def scan_ident_def scan_hash_def scan_slash_def scan_operator_def
      isspace_def isdigit_def isalpha_def Token_str_def NL_def)

text \<open>
  C10. Scanning past the end of the input is safe and stable: once the pending character
  of the lexer is the empty end marker, every call of \<open>scan\<close> (any budget of at least
  two iterations) returns an end-marker token, tag \<open>Tag(0, "")\<close>, raises nothing and
  consumes nothing: after any number of calls the state is the one before, except for
  the count of token objects created.
\<close>

theorem scan_end_stable:
  "peek self = [] \<Longrightarrow> scan_repeat k (Suc (Suc n)) self
     = Some (map (\<lambda>i. Token (next_oid self + i) (Tag 0 [])) [0..<k],
             self\<lparr>next_oid := next_oid self + k\<rparr>)"
proof (induction k arbitrary: self)
  case 0
  then show ?case by simp
next
  case (Suc k)
  let ?s1 = "self\<lparr>next_oid := next_oid self + 1\<rparr>"
  have p1: "peek ?s1 = []" using Suc.prems by simp
  have step: "scan (Suc (Suc n)) self = Some (Token (next_oid self) (Tag 0 []), ?s1)"
    using Suc.prems by (rule scan_at_end)
  have rest: "scan_repeat k (Suc (Suc n)) ?s1
     = Some (map (\<lambda>i. Token (next_oid ?s1 + i) (Tag 0 [])) [0..<k],
             ?s1\<lparr>next_oid := next_oid ?s1 + k\<rparr>)"
    using Suc.IH [OF p1] .
  have m: "map (\<lambda>i. Token (next_oid self + i) (Tag 0 [])) [0..<Suc k]
      = Token (next_oid self) (Tag 0 [])
        # map (\<lambda>i. Token (Suc (next_oid self + i)) (Tag 0 [])) [0..<k]"
    by (simp add: upt_conv_Cons map_Suc_upt [symmetric] del: upt_Suc)
  show ?case
    unfolding scan_repeat.simps step using rest m by simp
qed

text \<open>
  The source \<open>x\<close>: the first scan returns the identifier and leaves the end marker
  pending; the next three scans return end markers.
\<close>

theorem scan_end_stable_witness:
  "peek (snd (the (scan 5 (Lexer_init (InputStream_init ''x''))))) = []
   \<and> scan_repeat 3 2 (snd (the (scan 5 (Lexer_init (InputStream_init ''x'')))))
     = Some ([Token 16 (Tag 0 []), Token 17 (Tag 0 []), Token 18 (Tag 0 [])],
             (snd (the (scan 5 (Lexer_init (InputStream_init ''x'')))))\<lparr>next_oid := 19\<rparr>)"
proof -
  have p: "peek (snd (the (scan 5 (Lexer_init (InputStream_init ''x''))))) = []"
    by code_simp
  have n: "next_oid (snd (the (scan 5 (Lexer_init (InputStream_init ''x''))))) = 16"
    by code_simp
  show ?thesis
    using p scan_end_stable [OF p, of 3 0] n
    by (simp add: upt_conv_Cons numeral_3_eq_3 numeral_2_eq_2)
qed

section \<open>Properties of the parser\<close>

lemma pbind_simps [simp]:
  "pbind None f = None"
  "pbind (Some (Inl e, s)) f = Some (Inl e, s)"
  "pbind (Some (Inr a, s)) f = f a s"
  by (simp_all add: pbind_def)

lemma pbind_weak_cong [cong]: "m = m' \<Longrightarrow> pbind m f = pbind m' f"
  by simp

lemma Tags_NUM_attr [simp]: "Tags ''NUM'' = Some Tags_NUM"
  by (simp add: Tags_def)

subsection \<open>Left-associative chains\<close>

lemma grows_from_refl: "grows_from t t"
  by (cases t) auto

lemma grows_from_step:
  "grows_from (BinOp left_node op r) t \<Longrightarrow> op = ''+'' \<or> op = ''-'' \<Longrightarrow> is_factor r
   \<Longrightarrow> grows_from left_node t"
  by (induction t) (auto simp: grows_from_refl)

lemma factor_is_factor:
  "factor n T self = Some (Inr t, s') \<Longrightarrow> is_factor t"
  unfolding factor_def factor_sign_def with_attr_def token_value_def
  by (auto simp: pbind_def split: option.splits sum.splits prod.splits if_splits Token.splits)

lemma opers_loop_grows:
  "opers_loop n T left_node self = Some (Inr t, s') \<Longrightarrow> grows_from left_node t"
proof (induction n arbitrary: left_node self)
  case 0
  then show ?case by simp
next
  case (Suc n)
  show ?case
  proof (cases "Token_eq_str (lookahead self) ''+'' \<or> Token_eq_str (lookahead self) ''-''")
    case False
    with Suc.prems show ?thesis by (auto simp: grows_from_refl)
  next
    case True
    then have nm: "tag_name (tag (lookahead self)) = ''+''
        \<or> tag_name (tag (lookahead self)) = ''-''"
      by (auto simp: Token_eq_str_def)
    from True Suc.prems obtain s1 r s2 where
      f: "factor n T s1 = Some (Inr r, s2)" and
      l: "opers_loop n T (BinOp left_node (tag_name (tag (lookahead self))) r) s2
            = Some (Inr t, s')"
      by (auto simp: pbind_def split: option.splits sum.splits prod.splits if_splits)
    from Suc.IH [OF l]
    have g: "grows_from (BinOp left_node (tag_name (tag (lookahead self))) r) t" .
    have fr: "is_factor r" using f by (rule factor_is_factor)
    show ?thesis using g nm fr by (rule grows_from_step)
  qed
qed

text \<open>
  C5. \<open>opers\<close> builds a left-leaning tree for chains of \<open>+\<close> and \<open>-\<close>: the source
  \<open>1 - 2 - 3\<close> (tokens NUM 1, \<open>-\<close>, NUM 2, \<open>-\<close>, NUM 3) gives
  \<open>BinOp(BinOp(Literal 1, -, Literal 2), -, Literal 3)\<close>; in general, when the loop meets
  an operator and reads the operand after it, it goes on with the \<open>BinOp\<close> whose left
  child is the tree built so far, and every tree the loop returns is reached from the
  tree it started with by such steps only.
\<close>

theorem opers_left_associative:
  "map_option fst (opers 100 Tags (Parser_at ''1 - 2 - 3''))
     = Some (Inr (BinOp (BinOp (Literal 1) ''-'' (Literal 2)) ''-'' (Literal 3)))
   \<and> (lookahead self = Token i (Tag_chr c) \<and> (c = CHR ''+'' \<or> c = CHR ''-'')
        \<and> match n (Tag_chr c) self = Some (Inr (), sa)
        \<and> factor n T sa = Some (Inr right_node, sb)
      \<longrightarrow> opers_loop (Suc n) T left_node self
          = opers_loop n T (BinOp left_node [c] right_node) sb)
   \<and> (opers_loop m T left_node self = Some (Inr t, s') \<longrightarrow> grows_from left_node t)"
proof -
  have a: "map_option fst (opers 100 Tags (Parser_at ''1 - 2 - 3''))
     = Some (Inr (BinOp (BinOp (Literal 1) ''-'' (Literal 2)) ''-'' (Literal 3)))"
    by code_simp
  have b: "opers_loop (Suc n) T left_node self
          = opers_loop n T (BinOp left_node [c] right_node) sb"
    if "lookahead self = Token i (Tag_chr c)" "c = CHR ''+'' \<or> c = CHR ''-''"
       "match n (Tag_chr c) self = Some (Inr (), sa)"
       "factor n T sa = Some (Inr right_node, sb)"
    using that by (auto simp: Token_eq_str_def Tag_chr_def)
  show ?thesis using a b opers_loop_grows by blast
qed

text \<open>
  The chain \<open>1 - 2 - 3\<close> again, from the state after the first operand: the loop starts
  with \<open>Literal 1\<close>, its first step continues with \<open>BinOp(Literal 1, -, Literal 2)\<close>, and
  the tree it returns is reached from \<open>Literal 1\<close>.
\<close>

theorem opers_left_associative_witness:
  "map_option fst (opers_loop 99 Tags (Literal 1)
        (snd (the (factor 100 Tags (Parser_at ''1 - 2 - 3'')))))
     = Some (Inr (BinOp (BinOp (Literal 1) ''-'' (Literal 2)) ''-'' (Literal 3)))
   \<and> grows_from (Literal 1) (BinOp (BinOp (Literal 1) ''-'' (Literal 2)) ''-'' (Literal 3))
   \<and> opers_loop 99 Tags (Literal 1) (snd (the (factor 100 Tags (Parser_at ''1 - 2 - 3''))))
     = opers_loop 98 Tags (BinOp (Literal 1) ''-'' (Literal 2))
         (snd (the (factor 98 Tags (snd (the (match 98 (Tag_chr CHR ''-'')
            (snd (the (factor 100 Tags (Parser_at ''1 - 2 - 3''))))))))))"
proof -
  let ?S = "snd (the (factor 100 Tags (Parser_at ''1 - 2 - 3'')))"
  let ?S1 = "snd (the (match 98 (Tag_chr CHR ''-'') ?S))"
  let ?S2 = "snd (the (factor 98 Tags ?S1))"
  let ?t = "BinOp (BinOp (Literal 1) ''-'' (Literal 2)) ''-'' (Literal 3)"
  have r: "map_option fst (opers_loop 99 Tags (Literal 1) ?S) = Some (Inr ?t)"
    by code_simp
  then obtain s' where e: "opers_loop 99 Tags (Literal 1) ?S = Some (Inr ?t, s')"
    by (cases "opers_loop 99 Tags (Literal 1) ?S") auto
  have l: "lookahead ?S = Token 17 (Tag_chr CHR ''-'')" by code_simp
  have "map_option fst (match 98 (Tag_chr CHR ''-'') ?S) = Some (Inr ())" by code_simp
  then have m: "match 98 (Tag_chr CHR ''-'') ?S = Some (Inr (), ?S1)"
    by (cases "match 98 (Tag_chr CHR ''-'') ?S") auto
  have "map_option fst (factor 98 Tags ?S1) = Some (Inr (Literal 2))" by code_simp
  then have f: "factor 98 Tags ?S1 = Some (Inr (Literal 2), ?S2)"
    by (cases "factor 98 Tags ?S1") auto
  have g: "grows_from (Literal 1) ?t"
    using opers_left_associative [where m = 99 and T = Tags and left_node = "Literal 1"
        and self = ?S and t = ?t and s' = s'] e by blast
  have st: "opers_loop (Suc 98) Tags (Literal 1) ?S
      = opers_loop 98 Tags (BinOp (Literal 1) [CHR ''-''] (Literal 2)) ?S2"
    using opers_left_associative [where self = ?S and i = 17 and c = "CHR ''-''" and n = 98
        and sa = ?S1 and T = Tags and right_node = "Literal 2" and sb = ?S2
        and left_node = "Literal 1"] l m f by blast
  have "Suc 98 = 99" by simp
  with st have st': "opers_loop 99 Tags (Literal 1) ?S
      = opers_loop 98 Tags (BinOp (Literal 1) ''-'' (Literal 2)) ?S2"
    by simp
  show ?thesis using r g st' by simp
qed

subsection \<open>Signs and operands in \<open>factor\<close>\<close>




text \<open>
  Behind the failing attribute read, the branch for identifiers ignores the sign: with
  the attribute present, \<open>-x\<close> is accepted and parsed as the plain \<open>Identifier(x)\<close>.
\<close>

lemma factor_signed_identifier_completed:
  "map_option fst (factor 100 Tags_completed (Parser_at ''-x'')) = Some (Inr (Identifier ''x''))"
  by code_simp

subsection \<open>Failures of \<open>match\<close>\<close>

text \<open>
  C9. The claim asks that a failure of \<open>match\<close> names the expected tag and the line. On
  the source \<open>}\<close>, with \<open>{\<close> expected, \<open>match\<close> raises a \<open>ParseError\<close> without any
  argument: it carries neither the tag nor the line number.
\<close>

theorem match_mismatch_bare_error:
  "map_option fst (match 100 (Tag_chr CHR ''{'') (Parser_at ''}'')) = Some (Inl (ParseError []))"
  by code_simp

lemma match_mismatch:
  "\<not> Tag_eq t (tag (lookahead self)) \<Longrightarrow> match n t self = Some (Inl (ParseError []), self)"
  by (simp add: match_def)

subsection \<open>The statements of a program\<close>

text \<open>
  C2. The claim asks that a source of well-nested braces parses to a tree of blocks. On
  the source \<open>{}\<close> the parser enters the block and then, looking at \<open>}\<close>, reads
  \<open>Tags.VAR\<close>, which the class does not have: \<open>start\<close> ends with \<open>AttributeError\<close>. The
  same happens on the empty source.
\<close>

theorem start_braces_attribute_error:
  "map_option fst (parse_source 100 ''{}'') = Some (Inl (AttributeError ''VAR''))
   \<and> map_option fst (parse_source 100 []) = Some (Inl (AttributeError ''VAR''))"
  by code_simp

text \<open>With the attributes present the same sources parse as the claim says.\<close>

lemma start_braces_completed:
  "map_option (\<lambda>(r, s). (r, scope_depth (sym_table s)))
     (start 100 Tags_completed (Parser_on ''{{}{}}{}''))
   = Some (Inr (Program [Block [Block [], Block []], Block []]), 1)"
  by code_simp

text \<open>
  C1. The claim asks that the second of two declarations of \<open>x\<close> in one scope raises the
  duplicate-declaration \<open>ParseError\<close>. On the source \<open>var x : int = 1; var x : int = 2;\<close>
  no declaration is parsed at all: \<open>stmts\<close> reads \<open>Tags.VAR\<close> at the first token and
  \<open>start\<close> ends with \<open>AttributeError\<close>; the same happens with the second declaration
  inside a block.
\<close>

theorem start_declarations_attribute_error:
  "map_option fst (parse_source 100 ''var x : int = 1; var x : int = 2;'')
     = Some (Inl (AttributeError ''VAR''))
   \<and> map_option fst (parse_source 100 ''var x : int = 1; { var x : int = 2; }'')
     = Some (Inl (AttributeError ''VAR''))"
  by code_simp

text \<open>
  Even with the attributes present no declaration is parsed: the lexer has no reserved
  word \<open>var\<close> and returns it as an identifier, at which \<open>stmts\<close> stops, and \<open>start\<close>
  reports trailing input.
\<close>

lemma start_declarations_completed:
  "map_option (\<lambda>(r, s). (r, lookahead s))
     (start 100 Tags_completed (Parser_on ''var x : int = 1; var x : int = 2;''))
   = Some (Inl trailing_error, Id 16 ''var'')"
  by code_simp

text \<open>
  The symbol table itself behaves as the claim expects: a second insertion of a name
  into the same table is refused, an insertion into a new nested table succeeds and
  hides the outer binding.
\<close>

lemma SymTable_insert_twice:
  "fst (SymTable_insert (snd (SymTable_insert t x s)) x s') = False"
  by (simp add: SymTable_insert_def)

lemma SymTable_insert_nested:
  "SymTable_insert (SymTable_new (Some t)) x s = (True, SymTable [x \<mapsto> s] (Some t))
   \<and> SymTable_find (SymTable [x \<mapsto> s] (Some t)) x = Some s"
  by (simp add: SymTable_insert_def SymTable_new_def)

subsection \<open>The scope across \<open>block\<close>\<close>

lemma pbindE:
  assumes "pbind m f = Some (r, s')"
  obtains (raise) e where "m = Some (Inl e, s')" "r = Inl e"
        | (ok) a s where "m = Some (Inr a, s)" "f a s = Some (r, s')"
  using assms by (auto simp: pbind_def split: option.splits sum.splits prod.splits)

lemma with_attrE:
  assumes "with_attr T name self f = Some (r, s')"
  obtains (raise) "T name = None" "r = Inl (AttributeError name)" "s' = self"
        | (ok) t where "T name = Some t" "f t = Some (r, s')"
  using assms by (auto simp: with_attr_def split: option.splits)

lemma match_sym_table:
  "match n t self = Some (r, s') \<Longrightarrow> sym_table s' = sym_table self"
  by (auto simp: match_def split: if_splits option.splits prod.splits)

lemma match_raise:
  "match n t self = Some (Inl e, s') \<Longrightarrow> s' = self \<and> \<not> Tag_eq t (tag (lookahead self))"
  by (auto simp: match_def split: if_splits option.splits prod.splits)

lemma match_ok:
  "match n t self = Some (Inr u, s') \<Longrightarrow> Tag_eq t (tag (lookahead self))"
  by (auto simp: match_def split: if_splits option.splits prod.splits)

lemma factor_sign_sym_table:
  "factor_sign n self = Some (r, s') \<Longrightarrow> sym_table s' = sym_table self"
  by (auto simp: factor_sign_def split: if_splits elim!: pbindE dest: match_sym_table)

lemma token_valueE:
  assumes "token_value self f = Some (r, s')"
  obtains (raise) "r = Inl (AttributeError ''value'')" "s' = self"
        | (ok) i v where "lookahead self = Num i v" "f v = Some (r, s')"
  using assms by (auto simp: token_value_def split: Token.splits)

lemma factor_sym_table:
  assumes "factor n T self = Some (r, s')"
  shows "sym_table s' = sym_table self"
proof -
  from assms show ?thesis
    unfolding factor_def
    by (auto elim!: pbindE with_attrE split: if_splits
        dest!: factor_sign_sym_table match_sym_table elim!: token_valueE)
qed

lemma opers_loop_sym_table:
  "opers_loop n T left_node self = Some (r, s') \<Longrightarrow> sym_table s' = sym_table self"
proof (induction n arbitrary: left_node self)
  case 0
  then show ?case by simp
next
  case (Suc n)
  from Suc.prems show ?case
    by (auto split: if_splits elim!: pbindE dest!: match_sym_table factor_sym_table Suc.IH)
qed

lemma opers_sym_table:
  "opers n T self = Some (r, s') \<Longrightarrow> sym_table s' = sym_table self"
  by (auto simp: opers_def elim!: pbindE dest!: factor_sym_table opers_loop_sym_table)


lemma enclosing_previous: "previous a = previous b \<Longrightarrow> enclosing a = enclosing b"
  by (cases a; cases b) simp

lemma enclosing_new: "enclosing (SymTable_new (Some t)) = t # enclosing t"
  by (simp add: SymTable_new_def)

lemma previous_insert: "previous (snd (SymTable_insert t x s)) = previous t"
  by (simp add: SymTable_insert_def)

lemma var_decl_previous:
  assumes "var_decl n T self = Some (r, s')"
  shows "previous (sym_table s') = previous (sym_table self)"
  using assms unfolding var_decl_def
  by (auto elim!: pbindE with_attrE split: if_splits simp: previous_insert
      dest!: match_sym_table opers_sym_table)

lemma assignment_sym_table:
  assumes "assignment n T self = Some (r, s')"
  shows "sym_table s' = sym_table self"
  using assms unfolding assignment_def
  by (auto elim!: pbindE with_attrE dest!: match_sym_table opers_sym_table)

lemma print_stmt_sym_table:
  assumes "print_stmt n T self = Some (r, s')"
  shows "sym_table s' = sym_table self"
  using assms unfolding print_stmt_def
  by (auto elim!: pbindE with_attrE dest!: match_sym_table opers_sym_table)

lemma scope_same: "scope_after_stmts self x self"
  by (simp add: scope_after_stmts_def)

lemma scope_cont:
  assumes st: "stmts_scope n" and p: "previous (sym_table s) = previous (sym_table self)"
    and e: "stmts n T acc s = Some (r, s')"
  shows "scope_after_stmts self r s'"
proof -
  from st e have "scope_after_stmts s r s'"
    unfolding stmts_scope_def by blast
  then show ?thesis using enclosing_previous [OF p] p by (simp add: scope_after_stmts_def)
qed

lemma scope_bind:
  assumes st: "stmts_scope n"
    and b: "pbind m (\<lambda>node s. stmts n T (acc @ [node]) s) = Some (x, y)"
    and m: "\<And>r s'. m = Some (r, s') \<Longrightarrow> previous (sym_table s') = previous (sym_table self)"
  shows "scope_after_stmts self x y"
  using b
proof (cases rule: pbindE)
  case (raise e)
  then show ?thesis
    using m [OF raise(1)] enclosing_previous [of "sym_table y" "sym_table self"]
    by (simp add: scope_after_stmts_def)
next
  case (ok a s)
  show ?thesis using scope_cont [OF st m [OF ok(1)] ok(2)] .
qed

lemma scope_var_decl:
  "stmts_scope n \<Longrightarrow>
   pbind (var_decl n T self) (\<lambda>node s. stmts n T (acc @ [node]) s) = Some (x, y) \<Longrightarrow>
   scope_after_stmts self x y"
  using scope_bind var_decl_previous by blast

lemma scope_assignment:
  "stmts_scope n \<Longrightarrow>
   pbind (assignment n T self) (\<lambda>node s. stmts n T (acc @ [node]) s) = Some (x, y) \<Longrightarrow>
   scope_after_stmts self x y"
  using scope_bind [where m = "assignment n T self"] assignment_sym_table by metis

lemma scope_print_stmt:
  "stmts_scope n \<Longrightarrow>
   pbind (print_stmt n T self) (\<lambda>node s. stmts n T (acc @ [node]) s) = Some (x, y) \<Longrightarrow>
   scope_after_stmts self x y"
  using scope_bind [where m = "print_stmt n T self"] print_stmt_sym_table by metis

lemma scope_semicolon:
  assumes st: "stmts_scope n"
    and b: "pbind (match n (Tag_chr CHR '';'') self) (\<lambda>u s. stmts n T acc s) = Some (x, y)"
  shows "scope_after_stmts self x y"
  using b
proof (cases rule: pbindE)
  case (raise e)
  then show ?thesis using match_raise [OF raise(1)] scope_same by simp
next
  case (ok a s)
  have p: "previous (sym_table s) = previous (sym_table self)"
    using match_sym_table [OF ok(1)] by simp
  show ?thesis using scope_cont [OF st p ok(2)] .
qed

lemma scope_block:
  assumes st: "stmts_scope n" and bl: "block_scope n"
    and b: "pbind (block n T self) (\<lambda>node s. stmts n T (acc @ [node]) s) = Some (x, y)"
  shows "scope_after_stmts self x y"
  using b
proof (cases rule: pbindE)
  case (raise e)
  with bl have "scope_after_block self (Inl e) y"
    unfolding block_scope_def by blast
  then show ?thesis using raise(2)
    by (auto simp: scope_after_block_def scope_after_stmts_def split: if_splits dest: suffix_ConsD)
next
  case (ok a s)
  with bl have "scope_after_block self (Inr a) s"
    unfolding block_scope_def by blast
  then have p: "previous (sym_table s) = previous (sym_table self)"
    by (simp add: scope_after_block_def)
  show ?thesis using scope_cont [OF st p ok(2)] .
qed

lemma stmts_step:
  assumes st: "stmts_scope n" and bl: "block_scope n"
  shows "stmts_scope (Suc n)"
  unfolding stmts_scope_def
proof (intro allI impI)
  fix T acc self r s'
  assume e: "stmts (Suc n) T acc self = Some (r, s')"
  note rules = scope_var_decl [OF st] scope_assignment [OF st]
    scope_print_stmt [OF st] scope_semicolon [OF st] scope_block [OF st bl]
  from e show "scope_after_stmts self r s'"
    apply (auto elim!: with_attrE split: if_splits simp: scope_same dest: rules)
      apply (erule scope_var_decl [OF st])
     apply (erule scope_assignment [OF st])
    apply (erule scope_print_stmt [OF st])
    done
qed

lemma block_step:
  assumes st: "stmts_scope n"
  shows "block_scope (Suc n)"
  unfolding block_scope_def
proof (intro allI impI)
  fix T self r s'
  assume e: "block (Suc n) T self = Some (r, s')"
  from e have "pbind (match n (Tag_chr CHR ''{'') self) (\<lambda>u s1.
     pbind (stmts n T [] (s1\<lparr>sym_table := SymTable_new (Some (sym_table s1))\<rparr>))
       (\<lambda>comando_dos_blocos s2.
          if \<not> Token_eq_str (lookahead s2) ''}'' then Some (Inl (block_error s2), s2)
          else pbind (match n (Tag_chr CHR ''}'') s2) (\<lambda>u s3.
                 Some (Inr (Block comando_dos_blocos), s3\<lparr>sym_table := sym_table s1\<rparr>))))
      = Some (r, s')"
    by simp
  then show "scope_after_block self r s'"
  proof (cases rule: pbindE)
    case (raise e)
    then show ?thesis using match_raise [OF raise(1)] by (simp add: scope_after_block_def)
  next
    case (ok u s1)
    have t1: "sym_table s1 = sym_table self" using match_sym_table [OF ok(1)] .
    have m1: "Tag_eq (Tag_chr CHR ''{'') (tag (lookahead self))" using match_ok [OF ok(1)] .
    let ?in = "s1\<lparr>sym_table := SymTable_new (Some (sym_table s1))\<rparr>"
    have enc: "enclosing (sym_table ?in) = sym_table self # enclosing (sym_table self)"
      using t1 by (simp add: enclosing_new)
    have inner: "suffix (sym_table self # enclosing (sym_table self)) (enclosing (sym_table z))"
      if "stmts n T [] ?in = Some (x, z)" for x z
      using st that enc unfolding stmts_scope_def scope_after_stmts_def by metis
    from ok(2) show ?thesis
    proof (cases rule: pbindE)
      case (raise e)
      then show ?thesis using inner [OF raise(1)] m1 by (simp add: scope_after_block_def)
    next
      case (ok c s2)
      note su = inner [OF ok(1)]
      show ?thesis
      proof (cases "Token_eq_str (lookahead s2) ''}''")
        case False
        with ok(2) su m1 show ?thesis by (auto simp: scope_after_block_def)
      next
        case True
        with ok(2) have "pbind (match n (Tag_chr CHR ''}'') s2) (\<lambda>u s3.
                 Some (Inr (Block c), s3\<lparr>sym_table := sym_table s1\<rparr>)) = Some (r, s')"
          by simp
        then show ?thesis
        proof (cases rule: pbindE)
          case (raise e)
          then show ?thesis using match_raise [OF raise(1)] su m1
            by (simp add: scope_after_block_def)
        next
          case (ok a s)
          then show ?thesis using t1 by (auto simp: scope_after_block_def)
        qed
      qed
    qed
  qed
qed

lemma stmts_block_scope: "stmts_scope n \<and> block_scope n"
proof (induction n)
  case 0
  show ?case by (simp add: stmts_scope_def block_scope_def)
next
  case (Suc n)
  then show ?case using stmts_step block_step by blast
qed

lemma enclosing_not_self:
  "suffix (t # enclosing t) (enclosing t') \<Longrightarrow> t \<in> set (enclosing t') \<and> scope_depth t < scope_depth t'"
proof -
  assume a: "suffix (t # enclosing t) (enclosing t')"
  have d: "scope_depth x = Suc (length (enclosing x))" for x
  proof (induction x rule: enclosing.induct)
    case (1 tbl prev)
    then show ?case by (cases prev) (auto simp: scope_depth_def)
  qed
  from a have "length (t # enclosing t) \<le> length (enclosing t')" by (rule suffix_length_le)
  moreover from a have "t \<in> set (enclosing t')" by (auto simp: suffix_def)
  ultimately show ?thesis using d by simp
qed


text \<open>
  C3 (as amended). \<open>block\<close> puts the saved scope back only when it returns. After a
  normal return the scope of the parser is the one it had on entry. When \<open>block\<close> raises
  at the opening brace nothing has changed. When it raises later (from an inner
  statement, from the check of the closing brace or from its match) the scope is not
  restored: the parser is left in a table nested inside the entry scope, one or more
  levels deeper.
\<close>

theorem block_scope_on_exit:
  "block n T self = Some (r, s') \<longrightarrow>
     (case r of
        Inr b \<Rightarrow> sym_table s' = sym_table self
      | Inl e \<Rightarrow>
          if Tag_eq (Tag_chr CHR ''{'') (tag (lookahead self))
          then sym_table self \<in> set (enclosing (sym_table s'))
               \<and> scope_depth (sym_table self) < scope_depth (sym_table s')
          else sym_table s' = sym_table self)"
proof
  assume e: "block n T self = Some (r, s')"
  have "block_scope n" using stmts_block_scope by blast
  with e have "scope_after_block self r s'" unfolding block_scope_def by blast
  then show "case r of
        Inr b \<Rightarrow> sym_table s' = sym_table self
      | Inl e \<Rightarrow>
          if Tag_eq (Tag_chr CHR ''{'') (tag (lookahead self))
          then sym_table self \<in> set (enclosing (sym_table s'))
               \<and> scope_depth (sym_table self) < scope_depth (sym_table s')
          else sym_table s' = sym_table self"
    using enclosing_not_self [of "sym_table self" "sym_table s'"]
    by (auto simp: scope_after_block_def split: sum.splits if_splits)
qed

text \<open>
  The source \<open>{\<close>: \<open>block\<close> raises inside and leaves the parser in a scope that the
  entry scope encloses. With the missing attributes present, the source \<open>{}\<close> makes
  \<open>block\<close> return, in the entry scope.
\<close>

theorem block_scope_on_exit_witness:
  "map_option fst (block 100 Tags (Parser_at ''{'')) = Some (Inl (AttributeError ''VAR''))
   \<and> sym_table (Parser_at ''{'')
       \<in> set (enclosing (sym_table (snd (the (block 100 Tags (Parser_at ''{''))))))
   \<and> map_option fst (block 100 Tags_completed (Parser_at ''{}'')) = Some (Inr (Block []))
   \<and> sym_table (snd (the (block 100 Tags_completed (Parser_at ''{}''))))
       = sym_table (Parser_at ''{}'')"
proof -
  let ?P = "Parser_at ''{''"
  let ?Q = "Parser_at ''{}''"
  have a: "map_option fst (block 100 Tags ?P) = Some (Inl (AttributeError ''VAR''))"
    by code_simp
  then have a': "block 100 Tags ?P
      = Some (Inl (AttributeError ''VAR''), snd (the (block 100 Tags ?P)))"
    by (cases "block 100 Tags ?P") auto
  have t: "Tag_eq (Tag_chr CHR ''{'') (tag (lookahead ?P))" by code_simp
  have b: "sym_table ?P \<in> set (enclosing (sym_table (snd (the (block 100 Tags ?P)))))"
    using block_scope_on_exit [of 100 Tags ?P "Inl (AttributeError ''VAR'')"
        "snd (the (block 100 Tags ?P))"] a' t by simp
  have c: "map_option fst (block 100 Tags_completed ?Q) = Some (Inr (Block []))"
    by code_simp
  then have c': "block 100 Tags_completed ?Q
      = Some (Inr (Block []), snd (the (block 100 Tags_completed ?Q)))"
    by (cases "block 100 Tags_completed ?Q") auto
  have d: "sym_table (snd (the (block 100 Tags_completed ?Q))) = sym_table ?Q"
    using block_scope_on_exit [of 100 Tags_completed ?Q "Inr (Block [])"
        "snd (the (block 100 Tags_completed ?Q))"] c' by simp
  show ?thesis using a b c d by simp
qed

text \<open>
  C3 (as stated) fails. On the source \<open>{\<close> the parser is in the global scope (one scope)
  when \<open>block\<close> is called, and in a nested scope (two scopes) after \<open>block\<close> has raised,
  both in the program as it is, where the inner \<open>stmts\<close> raises, and with the missing
  attributes present, where the check of the closing brace raises.
\<close>

theorem block_scope_counterexample:
  "scope_depth (sym_table (Parser_at ''{'')) = 1
   \<and> map_option (\<lambda>(r, s). (r, scope_depth (sym_table s))) (block 100 Tags (Parser_at ''{''))
     = Some (Inl (AttributeError ''VAR''), 2)
   \<and> map_option (\<lambda>(r, s). (r, scope_depth (sym_table s)))
       (block 100 Tags_completed (Parser_at ''{''))
     = Some (Inl (ParseError [''Erro na linha 1:era esperado '' @ [CHR 0x27] @ ''}''
          @ [CHR 0x27] @ '' no final do bloco.'']), 2)"
  by code_simp

subsection \<open>Declarations behind the failing attribute read\<close>

text \<open>
  What \<open>var_decl\<close> does by design, for any namespace: when it returns, the name was not
  bound in the current table and is bound there afterwards, so a second declaration in
  the same scope cannot return. With the attributes present and a lookahead token that
  carries the tag \<open>VAR\<close> (which the lexer never produces) put in by hand, the first
  declaration of \<open>x\<close> succeeds and the second one raises the duplicate-declaration error.
\<close>

lemma var_decl_declares:
  assumes "var_decl n T self = Some (Inr node, s')"
  shows "\<exists>name ty e. node = VarDecl name ty e \<and> name \<notin> dom (table (sym_table self))
     \<and> sym_table s' = SymTable ((table (sym_table self))(name \<mapsto> Symbol name ty))
                          (previous (sym_table self))"
  using assms unfolding var_decl_def
  by (auto elim!: pbindE with_attrE split: if_splits simp: SymTable_insert_def
      dest!: match_sym_table opers_sym_table)

lemma var_decl_completed_first:
  "map_option (\<lambda>(r, s). (r, SymTable_find (sym_table s) ''x''))
     (var_decl 100 Tags_completed
        ((Parser_at ''v x : int = 1; v x : int = 2;'')\<lparr>lookahead := Token 0 (Tag 261 ''VAR'')\<rparr>))
   = Some (Inr (VarDecl ''x'' ''int'' (Literal 1)), Some (Symbol ''x'' ''int''))"
  by code_simp

lemma var_decl_completed_duplicate:
  "map_option fst
     (var_decl 100 Tags_completed
        ((snd (the (var_decl 100 Tags_completed
            ((Parser_at ''v x : int = 1; v x : int = 2;'')\<lparr>lookahead := Token 0 (Tag 261 ''VAR'')\<rparr>))))
         \<lparr>lookahead := Token 0 (Tag 261 ''VAR'')\<rparr>))
   = Some (Inl (duplicate_error ''x''))"
  by code_simp

section \<open>The identifier table\<close>

lemma get_next_char_table: "id_table (snd (get_next_char self)) = id_table self"
proof (induction self rule: get_next_char.induct)
  case (1 self)
  show ?case
    by (subst get_next_char.simps) (use 1 in \<open>auto\<close>)
qed

lemma advance_table [simp]: "id_table (advance self) = id_table self"
  by (simp add: advance_def get_next_char_table)

lemma of_char_below: "(of_char c :: int) < 256"
proof -
  have "(of_char c :: int) mod 256 < 256" by (rule pos_mod_bound) simp
  then show ?thesis by simp
qed

lemma Token_str_plain [simp]: "is_plain (Token_str i s)"
  by (simp add: Token_str_def Tag_chr_def of_char_below)
















lemma table_step_same: "id_table b = id_table a \<Longrightarrow> table_step a b"
  by (simp add: table_step_def)

lemma table_step_cong:
  "table_step a b \<Longrightarrow> id_table a' = id_table a \<Longrightarrow> id_table b' = id_table b \<Longrightarrow> table_step a' b'"
  by (simp add: table_step_def)

lemma from_table_cong:
  "from_table a b t \<Longrightarrow> id_table a' = id_table a \<Longrightarrow> id_table b' = id_table b \<Longrightarrow> from_table a' b' t"
  by (simp add: from_table_def)















section \<open>Block comments\<close>

subsection \<open>A comment that is never closed\<close>


lemma get_next_char_props:
  "source_code (istream (snd (get_next_char self))) = source_code (istream self)
   \<and> (fst (get_next_char self) = [] \<or> fst (get_next_char self) = NL
      \<or> (0 < position (istream (snd (get_next_char self)))
          \<and> position (istream (snd (get_next_char self))) \<le> length (source_code (istream self))
          \<and> fst (get_next_char self)
              = [source_code (istream self) ! (position (istream (snd (get_next_char self))) - 1)]))"
proof (induction self rule: get_next_char.induct)
  case (1 self)
  show ?case
    by (subst (1 2 3 4 5 6 7) get_next_char.simps) (use 1 in \<open>auto simp: get_char_def\<close>)
qed

lemma advance_source [simp]:
  "source_code (istream (advance self)) = source_code (istream self)"
  using get_next_char_props [of self] by (simp add: advance_def)










subsection \<open>Well-formed comments\<close>


lemma stream_peek_rest: "stream_peek (istream self) = take 1 (rest self)"
  by (auto simp: stream_peek_def rest_def take_Suc_conv_app_nth
      intro: Cons_nth_drop_Suc [symmetric] simp flip: Cons_nth_drop_Suc)



lemma at_stream_peek: "at self x xs \<Longrightarrow> stream_peek (istream self) = take 1 xs"
  by (simp add: at_def stream_peek_rest)
















subsection \<open>The line counter\<close>



lemma tracks_peek [simp]: "tracks a (b\<lparr>peek := p\<rparr>) = tracks a b"
  by (simp add: tracks_def consumed_def)



lemma tracks_source: "tracks a b \<Longrightarrow> source_code (istream b) = source_code (istream a)"
  by (simp add: tracks_def)








subsection \<open>Comments the counter gets wrong\<close>

text \<open>
  Three slips of the code, outside the amended claim. An opening delimiter that
  directly follows another opening delimiter is not counted: of three levels only two
  are closed and the last \<open>>\<close> comes out as a token. The \<open>*\<close> of \<open>/*\<close> is taken again as the
  start of \<open>*/\<close>, so \<open>/*/\<close> is a whole comment. After a comment that contains a line
  feed, \<open>scan\<close> reads one character more and loses the character that directly follows
  the comment.
\<close>

lemma comment_adjacent_openers:
  "map_option fst (scan 100 (Lexer_init (InputStream_init ''#<#<#< ># ># ># x'')))
     = Some (Token 15 (Tag_chr CHR ''>''))"
  by code_simp

lemma comment_overlapping_delimiters:
  "map_option fst (scan 100 (Lexer_init (InputStream_init ''/*/ x''))) = Some (Id 15 ''x'')"
  by code_simp

lemma comment_line_feed_drops_character:
  "map_option fst (scan 100 (Lexer_init (InputStream_init (''#< a'' @ [CHR 0x0A] @ '' >#var''))))
     = Some (Id 15 ''ar'')"
  by code_simp

end
